theory Spec2Isabelle
  imports Complex_Main "HOL-Library.Word"
begin

section \<open>OneDrive upload agent: data model\<close>

text \<open>
  The source is one Python script, \<^verbatim>\<open>sharepoint_agent.py\<close>. The model covers the two
  upload helpers \<^verbatim>\<open>simple_upload\<close> and \<^verbatim>\<open>upload_large_file\<close> and the module-level block
  that chooses between them. Everything the script does to the outside is written
  into an event trace: HTTP requests handed to \<^verbatim>\<open>requests\<close> and calls into Streamlit.
  Everything the outside answers comes from a \<open>world\<close> record.

  Numbers. Python integers are unbounded; sizes, offsets and indices are never negative
  here and are \<open>nat\<close>, except where the script subtracts, which is done in \<open>int\<close>.
  The two true divisions of the script, \<^verbatim>\<open>size / CHUNK_SIZE\<close> and \<^verbatim>\<open>(i + 1) / chunks\<close>,
  produce IEEE doubles in Python; the model computes them exactly, in \<open>real\<close>.
\<close>

type_synonym byte = "8 word"

definition CHUNK_SIZE :: nat where
  "CHUNK_SIZE = 320 * 1024"

text \<open>A value obtained by decoding a JSON document; a Python dict is an association list.\<close>

datatype json =
    JNull
  | JBool bool
  | JNum int
  | JStr string
  | JArr "json list"
  | JObj "(string \<times> json) list"

text \<open>
  A \<^verbatim>\<open>requests.Response\<close>: its status code and what \<^verbatim>\<open>.json()\<close> gives;
  \<open>None\<close> when the body does not decode, where \<^verbatim>\<open>.json()\<close> raises.
\<close>

record response =
  status_code :: nat
  json_body :: "json option"

datatype py_error =
    KeyError
  | TypeError
  | JSONDecodeError
  | UnboundLocalError
  | ZeroDivisionError
  | RequestException

text \<open>
  How a call ends: it returns a value, it reaches \<^verbatim>\<open>st.stop()\<close> (which ends the
  script run), or an exception leaves it.
\<close>

datatype 'a outcome = Returned 'a | Stopped | Raised py_error

text \<open>
  Streamlit's uploaded file. The script reads \<^verbatim>\<open>.name\<close>, \<^verbatim>\<open>.type\<close>, \<^verbatim>\<open>.size\<close> and
  \<^verbatim>\<open>.getvalue()\<close>. Streamlit sets \<^verbatim>\<open>.size\<close> to the number of bytes of the buffer;
  that link is not in the script, so it is the predicate \<open>wf_file\<close>.
\<close>

record uploaded_file =
  file_name :: string
  file_type :: string
  file_size :: nat
  getvalue :: "byte list"

definition wf_file :: "uploaded_file \<Rightarrow> bool" where
  "wf_file f \<longleftrightarrow> file_size f = length (getvalue f)"

datatype http_method = POST | PUT

datatype payload = Json json | Data "byte list"

text \<open>
  A request as handed to \<^verbatim>\<open>requests\<close>. The URL of a chunk request is whatever value the
  session response holds under \<^verbatim>\<open>uploadUrl\<close>, so it is a \<open>json\<close> value, not a string.
\<close>

record request =
  req_method :: http_method
  req_url :: json
  req_headers :: "(string \<times> string) list"
  req_payload :: payload

datatype event =
    Request request
  | StProgress real
  | ProgressUpdate real
  | StInfoSize nat
  | StSuccess string
  | StError string
  | StJson json

text \<open>
  The answers of the outside: to the session-creation POST, to the \<open>i\<close>-th chunk PUT
  and to the direct PUT. \<open>None\<close> is a call of \<^verbatim>\<open>requests\<close> that raises instead of
  returning a response.
\<close>

record world =
  session_answer :: "response option"
  chunk_answer :: "nat \<Rightarrow> response option"
  direct_answer :: "response option"

section \<open>Helpers\<close>

text \<open>\<^verbatim>\<open>str(n)\<close> for an integer: decimal digits, a minus sign when negative.\<close>

definition digit_char :: "nat \<Rightarrow> char" where
  "digit_char d = ''0123456789'' ! d"

fun str_nat :: "nat \<Rightarrow> string" where
  "str_nat n = (if n < 10 then [digit_char n] else str_nat (n div 10) @ [digit_char (n mod 10)])"

declare str_nat.simps [simp del]

definition str_int :: "int \<Rightarrow> string" where
  "str_int k = (if k < 0 then CHR ''-'' # str_nat (nat (- k)) else str_nat (nat k))"

text \<open>\<^verbatim>\<open>data[start:stop]\<close> for non-negative bounds.\<close>

definition slice :: "'a list \<Rightarrow> nat \<Rightarrow> nat \<Rightarrow> 'a list" where
  "slice xs start stop = take (stop - start) (drop start xs)"

text \<open>
  \<^verbatim>\<open>obj[key]\<close> with a string key on a decoded JSON value: a dict without the key raises
  \<^verbatim>\<open>KeyError\<close>, any other value raises \<^verbatim>\<open>TypeError\<close>.
\<close>

fun getitem :: "json \<Rightarrow> string \<Rightarrow> py_error + json" where
  "getitem (JObj kvs) k = (case map_of kvs k of None \<Rightarrow> Inl KeyError | Some v \<Rightarrow> Inr v)"
| "getitem _ k = Inl TypeError"

definition prepend :: "event list \<Rightarrow> event list \<times> 'a outcome \<Rightarrow> event list \<times> 'a outcome" where
  "prepend evs res = (evs @ fst res, snd res)"

text \<open>\<^verbatim>\<open>status_code in (200, 201, 202)\<close>\<close>

definition status_ok :: "nat \<Rightarrow> bool" where
  "status_ok s \<longleftrightarrow> s = 200 \<or> s = 201 \<or> s = 202"

section \<open>The script's functions\<close>

definition graph_headers :: "string \<Rightarrow> (string \<times> string) list" where
  "graph_headers token = [(''Authorization'', ''Bearer '' @ token)]"

text \<open>Lines 105-114.\<close>

definition simple_upload :: "world \<Rightarrow> string \<Rightarrow> uploaded_file \<Rightarrow> string \<Rightarrow> event list \<times> response outcome" where
  "simple_upload w token file folder_id =
     (let headers = graph_headers token @ [(''Content-Type'', file_type file)];
          url = (if folder_id = ''root''
                 then ''https://graph.microsoft.com/v1.0/me/drive/root:/'' @ file_name file @ '':/content''
                 else ''https://graph.microsoft.com/v1.0/me/drive/items/'' @ folder_id @ '':/''
                        @ file_name file @ '':/content'');
          req = \<lparr>req_method = PUT, req_url = JStr url, req_headers = headers,
                 req_payload = Data (getvalue file)\<rparr>
      in case direct_answer w of
           None \<Rightarrow> ([Request req], Raised RequestException)
         | Some r \<Rightarrow> ([Request req], Returned r))"

text \<open>Lines 117-126: the session-creation request of \<^verbatim>\<open>upload_large_file\<close>.\<close>

definition session_url :: "string \<Rightarrow> string \<Rightarrow> string" where
  "session_url folder_id fname =
     (if folder_id = ''root''
      then ''https://graph.microsoft.com/v1.0/me/drive/root:/'' @ fname @ '':/createUploadSession''
      else ''https://graph.microsoft.com/v1.0/me/drive/items/'' @ folder_id @ '':/'' @ fname
             @ '':/createUploadSession'')"

definition session_request :: "string \<Rightarrow> uploaded_file \<Rightarrow> string \<Rightarrow> request" where
  "session_request token file folder_id =
     \<lparr>req_method = POST,
      req_url = JStr (session_url folder_id (file_name file)),
      req_headers = graph_headers token,
      req_payload = Json (JObj [(''item'',
                      JObj [(''@microsoft.graph.conflictBehavior'', JStr ''replace'')])])\<rparr>"

text \<open>
  Lines 136-144: the request of chunk \<open>i\<close>, for chunk size \<open>cs\<close> and \<open>tot = len(data)\<close>.
\<close>

definition chunk_start :: "nat \<Rightarrow> nat \<Rightarrow> nat" where
  "chunk_start cs i = i * cs"

definition chunk_stop :: "nat \<Rightarrow> nat \<Rightarrow> nat \<Rightarrow> nat" where
  "chunk_stop cs tot i = min (chunk_start cs i + cs) tot"

definition chunk_headers :: "nat \<Rightarrow> nat \<Rightarrow> nat \<Rightarrow> (string \<times> string) list" where
  "chunk_headers cs tot i =
     (let start = chunk_start cs i; stop = chunk_stop cs tot i
      in [(''Content-Length'', str_int (int stop - int start)),
          (''Content-Range'',
             ''bytes '' @ str_int (int start) @ ''-'' @ str_int (int stop - 1) @ ''/''
               @ str_int (int tot))])"

definition chunk_request :: "json \<Rightarrow> byte list \<Rightarrow> nat \<Rightarrow> nat \<Rightarrow> request" where
  "chunk_request upload_url data cs i =
     \<lparr>req_method = PUT,
      req_url = upload_url,
      req_headers = chunk_headers cs (length data) i,
      req_payload = Data (slice data (chunk_start cs i) (chunk_stop cs (length data) i))\<rparr>"

text \<open>
  Lines 136-150: one pass through the body of \<^verbatim>\<open>for i in range(chunks)\<close>. The pass
  either leaves the function (\<open>Inl\<close>: an exception of \<^verbatim>\<open>requests\<close>, or the failure
  branch with \<^verbatim>\<open>st.error\<close>, \<^verbatim>\<open>st.json(r.json())\<close>, \<^verbatim>\<open>st.stop()\<close>), or goes on
  to the next index with the local variable \<^verbatim>\<open>r\<close> bound to the response (\<open>Inr\<close>).
\<close>

definition chunk_body ::
  "world \<Rightarrow> json \<Rightarrow> byte list \<Rightarrow> nat \<Rightarrow> nat \<Rightarrow> nat
     \<Rightarrow> (event list \<times> response outcome) + (event list \<times> response)" where
  "chunk_body w upload_url data cs chunks i =
     (let q = chunk_request upload_url data cs i in
      case chunk_answer w i of
        None \<Rightarrow> Inl ([Request q], Raised RequestException)
      | Some r \<Rightarrow>
          if \<not> status_ok (status_code r) then
            (case json_body r of
               None \<Rightarrow> Inl ([Request q, StError ''Chunk upload failed''], Raised JSONDecodeError)
             | Some j \<Rightarrow> Inl ([Request q, StError ''Chunk upload failed'', StJson j], Stopped))
          else Inr ([Request q, ProgressUpdate (of_nat (i + 1) / of_nat chunks)], r))"

text \<open>
  Lines 135-152: the loop and the \<^verbatim>\<open>return r\<close> after it. The argument \<open>r\<close> is the
  local variable \<^verbatim>\<open>r\<close>, \<open>None\<close> while it is unbound; returning it unbound raises
  \<^verbatim>\<open>UnboundLocalError\<close>.
\<close>

function chunk_loop ::
  "world \<Rightarrow> json \<Rightarrow> byte list \<Rightarrow> nat \<Rightarrow> nat \<Rightarrow> nat \<Rightarrow> response option
     \<Rightarrow> event list \<times> response outcome" where
  "chunk_loop w upload_url data cs chunks i r =
     (if i < chunks then
        (case chunk_body w upload_url data cs chunks i of
           Inl res \<Rightarrow> res
         | Inr (evs, r') \<Rightarrow> prepend evs (chunk_loop w upload_url data cs chunks (i + 1) (Some r')))
      else (case r of
              None \<Rightarrow> ([], Raised UnboundLocalError)
            | Some r' \<Rightarrow> ([], Returned r')))"
  by pat_completeness auto
termination
  by (relation "measure (\<lambda>(w, upload_url, data, cs, chunks, i, r). chunks - i)") auto

declare chunk_loop.simps [simp del]

text \<open>
  \<^verbatim>\<open>math.ceil(size / cs)\<close>, computed exactly. Python rounds the quotient to a double
  before taking the ceiling; for \<open>cs = 327680\<close> the rounding error stays below
  \<open>1 / 327680\<close>, the least distance of a quotient from an integer, for every size below
  \<open>2 ^ 50\<close>, so both agree there. Python raises \<^verbatim>\<open>ZeroDivisionError\<close> for \<open>cs = 0\<close>;
  the caller below checks that first.
\<close>

definition total_chunks :: "nat \<Rightarrow> nat \<Rightarrow> nat" where
  "total_chunks tot cs = nat \<lceil>(of_nat tot :: real) / of_nat cs\<rceil>"

text \<open>
  Lines 122-128: what \<^verbatim>\<open>requests.post(...).json()["uploadUrl"]\<close> evaluates to.
\<close>

definition upload_session :: "world \<Rightarrow> py_error + json" where
  "upload_session w =
     (case session_answer w of
        None \<Rightarrow> Inl RequestException
      | Some sr \<Rightarrow>
          (case json_body sr of
             None \<Rightarrow> Inl JSONDecodeError
           | Some session \<Rightarrow> getitem session ''uploadUrl''))"

text \<open>
  Lines 116-152, with the module constant \<^verbatim>\<open>CHUNK_SIZE\<close> as the parameter \<open>cs\<close>.
\<close>

definition upload_large_file_cs ::
  "nat \<Rightarrow> world \<Rightarrow> string \<Rightarrow> uploaded_file \<Rightarrow> string \<Rightarrow> event list \<times> response outcome" where
  "upload_large_file_cs cs w token file folder_id =
     (case upload_session w of
        Inl e \<Rightarrow> ([Request (session_request token file folder_id)], Raised e)
      | Inr upload_url \<Rightarrow>
          if cs = 0
          then ([Request (session_request token file folder_id)], Raised ZeroDivisionError)
          else
            prepend [Request (session_request token file folder_id), StProgress 0]
              (chunk_loop w upload_url (getvalue file) cs
                 (total_chunks (length (getvalue file)) cs) 0 None))"

definition upload_large_file ::
  "world \<Rightarrow> string \<Rightarrow> uploaded_file \<Rightarrow> string \<Rightarrow> event list \<times> response outcome" where
  "upload_large_file = upload_large_file_cs CHUNK_SIZE"

text \<open>
  Lines 205-218: the upload block at module level. \<open>uploaded\<close> is what
  \<^verbatim>\<open>st.file_uploader\<close> returned, \<open>clicked\<close> what \<^verbatim>\<open>st.button\<close> returned. The text of the
  \<^verbatim>\<open>st.info\<close> message formats a float and is kept as the size it is computed from.
\<close>

definition finish_upload :: "event list \<times> response outcome \<Rightarrow> event list \<times> unit outcome" where
  "finish_upload res =
     (case snd res of
        Raised e \<Rightarrow> (fst res, Raised e)
      | Stopped \<Rightarrow> (fst res, Stopped)
      | Returned resp \<Rightarrow>
          if status_ok (status_code resp)
          then (fst res @ [StSuccess ''File uploaded successfully to OneDrive''], Returned ())
          else (case json_body resp of
                  None \<Rightarrow> (fst res @ [StError ''Upload failed''], Raised JSONDecodeError)
                | Some j \<Rightarrow> (fst res @ [StError ''Upload failed'', StJson j], Returned ())))"

definition upload_block ::
  "world \<Rightarrow> string \<Rightarrow> uploaded_file option \<Rightarrow> bool \<Rightarrow> string \<Rightarrow> event list \<times> unit outcome" where
  "upload_block w token uploaded clicked current_folder =
     (case uploaded of
        None \<Rightarrow> ([], Returned ())
      | Some f \<Rightarrow>
          if \<not> clicked then ([], Returned ())
          else
            prepend [StInfoSize (file_size f)]
              (finish_upload
                 (if file_size f \<le> 4 * 1024 * 1024
                  then simple_upload w token f current_folder
                  else upload_large_file w token f current_folder)))"

text \<open>Projections of a trace.\<close>

fun event_requests :: "event list \<Rightarrow> request list" where
  "event_requests [] = []"
| "event_requests (Request q # evs) = q # event_requests evs"
| "event_requests (_ # evs) = event_requests evs"

fun event_progress :: "event list \<Rightarrow> real list" where
  "event_progress [] = []"
| "event_progress (ProgressUpdate v # evs) = v # event_progress evs"
| "event_progress (_ # evs) = event_progress evs"

definition chunk_puts :: "event list \<Rightarrow> request list" where
  "chunk_puts evs = filter (\<lambda>q. req_method q = PUT) (event_requests evs)"

definition session_posts :: "event list \<Rightarrow> request list" where
  "session_posts evs = filter (\<lambda>q. req_method q = POST) (event_requests evs)"

text \<open>The Streamlit error output of a trace: its \<^verbatim>\<open>st.error\<close> and \<^verbatim>\<open>st.json\<close> calls.\<close>

fun event_reports :: "event list \<Rightarrow> event list" where
  "event_reports [] = []"
| "event_reports (StError m # evs) = StError m # event_reports evs"
| "event_reports (StJson j # evs) = StJson j # event_reports evs"
| "event_reports (_ # evs) = event_reports evs"

text \<open>The service accepted chunk \<open>i\<close>: a response came back and its status is in the success set.\<close>

definition chunk_accepted :: "world \<Rightarrow> nat \<Rightarrow> bool" where
  "chunk_accepted w i \<longleftrightarrow>
     (case chunk_answer w i of None \<Rightarrow> False | Some r \<Rightarrow> status_ok (status_code r))"

text \<open>The events of an accepted pass, and the progress value it reports.\<close>

definition progress_value :: "nat \<Rightarrow> nat \<Rightarrow> real" where
  "progress_value chunks i = of_nat (i + 1) / of_nat chunks"

definition accepted_events :: "json \<Rightarrow> byte list \<Rightarrow> nat \<Rightarrow> nat \<Rightarrow> nat \<Rightarrow> event list" where
  "accepted_events upload_url data cs chunks i =
     [Request (chunk_request upload_url data cs i), ProgressUpdate (progress_value chunks i)]"

text \<open>What \<^verbatim>\<open>return r\<close> does after the loop.\<close>

definition final_outcome :: "response option \<Rightarrow> response outcome" where
  "final_outcome r = (case r of None \<Rightarrow> Raised UnboundLocalError | Some r' \<Rightarrow> Returned r')"

section \<open>Concrete inputs\<close>

text \<open>
  A service that creates the session and accepts every chunk, the same service
  rejecting chunk \<open>k\<close> with status \<open>s\<close>, and an uploaded file with given bytes.
\<close>

definition session_created :: response where
  "session_created =
     \<lparr>status_code = 200,
      json_body = Some (JObj [(''uploadUrl'', JStr ''https://upload.example/session'')])\<rparr>"

definition world_ok :: world where
  "world_ok =
     \<lparr>session_answer = Some session_created,
      chunk_answer = (\<lambda>i. Some \<lparr>status_code = 202, json_body = Some (JObj [])\<rparr>),
      direct_answer = Some \<lparr>status_code = 201, json_body = Some (JObj [])\<rparr>\<rparr>"

definition world_reject :: "nat \<Rightarrow> nat \<Rightarrow> world" where
  "world_reject k s =
     world_ok\<lparr>chunk_answer :=
       (\<lambda>i. if i = k
            then Some \<lparr>status_code = s, json_body = Some (JObj [(''error'', JStr ''rejected'')])\<rparr>
            else chunk_answer world_ok i)\<rparr>"

definition file_of :: "byte list \<Rightarrow> uploaded_file" where
  "file_of bs =
     \<lparr>file_name = ''a.bin'', file_type = ''application/octet-stream'',
      file_size = length bs, getvalue = bs\<rparr>"


text \<open>The same rejection with a body that is not JSON (an HTML error page, say).\<close>

definition world_reject_undecodable :: "nat \<Rightarrow> nat \<Rightarrow> world" where
  "world_reject_undecodable k s =
     world_ok\<lparr>chunk_answer :=
       (\<lambda>i. if i = k then Some \<lparr>status_code = s, json_body = None\<rparr>
            else chunk_answer world_ok i)\<rparr>"

definition zero_bytes :: "nat \<Rightarrow> byte list" where
  "zero_bytes n = replicate n 0"

section \<open>The number of chunks\<close>

lemma total_chunks_int: "int (total_chunks tot cs) = \<lceil>real tot / real cs\<rceil>"
proof -
  have "0 \<le> real tot / real cs" by simp
  then have "0 \<le> \<lceil>real tot / real cs\<rceil>" by linarith
  then show ?thesis by (simp add: total_chunks_def)
qed

lemma total_chunks_upper: 
  assumes "0 < cs" shows "tot \<le> total_chunks tot cs * cs"
proof -
  have "real tot \<le> of_int \<lceil>real tot / real cs\<rceil> * real cs"
    using assms by (intro ceiling_divide_upper) simp
  then have "real tot \<le> real (total_chunks tot cs * cs)"
    by (simp add: total_chunks_int [symmetric])
  then show ?thesis by (simp only: of_nat_le_iff)
qed

lemma total_chunks_lower:
  assumes "0 < cs" "i < total_chunks tot cs" shows "i * cs < tot"
proof -
  have "(of_int \<lceil>real tot / real cs\<rceil> - 1) * real cs < real tot"
    using assms(1) by (intro ceiling_divide_lower) simp
  then have lt: "(real (total_chunks tot cs) - 1) * real cs < real tot"
    by (simp add: total_chunks_int [symmetric])
  have "real i \<le> real (total_chunks tot cs) - 1"
    using assms(2) by linarith
  then have "real i * real cs \<le> (real (total_chunks tot cs) - 1) * real cs"
    by (intro mult_right_mono) simp_all
  with lt have "real (i * cs) < real tot" by simp
  then show ?thesis by (simp only: of_nat_less_iff)
qed

lemma total_chunks_pos: "0 < cs \<Longrightarrow> 0 < tot \<Longrightarrow> 0 < total_chunks tot cs"
  using total_chunks_upper [of cs tot] by (cases "total_chunks tot cs") auto

section \<open>Runs of the chunk loop\<close>

lemma prepend_Nil: "prepend [] res = res"
  by (simp add: prepend_def)

lemma prepend_prepend: "prepend xs (prepend ys res) = prepend (xs @ ys) res"
  by (simp add: prepend_def)

lemma fst_prepend: "fst (prepend xs res) = xs @ fst res"
  by (simp add: prepend_def)

lemma snd_prepend: "snd (prepend xs res) = snd res"
  by (simp add: prepend_def)

lemma chunk_body_accepted:
  assumes "chunk_accepted w i"
  shows "\<exists>r'. chunk_answer w i = Some r' \<and> status_ok (status_code r') \<and>
           chunk_body w u d cs chunks i = Inr (accepted_events u d cs chunks i, r')"
  using assms
  by (auto simp: chunk_accepted_def chunk_body_def accepted_events_def progress_value_def
           split: option.splits)

lemma chunk_body_rejected:
  assumes "\<not> chunk_accepted w i"
  shows "\<exists>res. chunk_body w u d cs chunks i = Inl res \<and>
           event_requests (fst res) = [chunk_request u d cs i] \<and>
           event_progress (fst res) = [] \<and>
           (snd res = Stopped \<or> snd res = Raised RequestException \<or> snd res = Raised JSONDecodeError)"
  using assms
  by (auto simp: chunk_accepted_def chunk_body_def Let_def split: option.splits)

lemma loop_rejected:
  assumes "k < chunks" "chunk_body w u d cs chunks k = Inl res"
  shows "i \<le> k \<Longrightarrow> (\<forall>j. i \<le> j \<and> j < k \<longrightarrow> chunk_accepted w j) \<Longrightarrow>
         chunk_loop w u d cs chunks i r =
           prepend (concat (map (accepted_events u d cs chunks) [i..<k])) res"
proof (induction "k - i" arbitrary: i r)
  case 0
  then have "i = k" by simp
  then show ?case
    using assms by (simp add: chunk_loop.simps [of w u d cs chunks k] prepend_Nil)
next
  case (Suc n)
  then have ik: "i < k" by simp
  with Suc.prems have "chunk_accepted w i" by simp
  then obtain r' where b: "chunk_body w u d cs chunks i = Inr (accepted_events u d cs chunks i, r')"
    using chunk_body_accepted by blast
  have "chunk_loop w u d cs chunks (i + 1) (Some r') =
          prepend (concat (map (accepted_events u d cs chunks) [i + 1..<k])) res"
    using Suc.hyps Suc.prems ik by (intro Suc.hyps(1)) auto
  moreover have "[i..<k] = i # [i + 1..<k]"
    using ik by (simp add: upt_conv_Cons)
  ultimately show ?case
    using ik assms(1) b
    by (simp add: chunk_loop.simps [of w u d cs chunks i] prepend_prepend)
qed

lemma loop_accepted:
  shows "i \<le> chunks \<Longrightarrow> (\<forall>j. i \<le> j \<and> j < chunks \<longrightarrow> chunk_accepted w j) \<Longrightarrow>
         chunk_loop w u d cs chunks i r =
           (concat (map (accepted_events u d cs chunks) [i..<chunks]),
            final_outcome (if i < chunks then chunk_answer w (chunks - 1) else r))"
proof (induction "chunks - i" arbitrary: i r)
  case 0
  then have "i = chunks" by simp
  then show ?case
    by (simp add: chunk_loop.simps [of w u d cs chunks chunks] final_outcome_def split: option.splits)
next
  case (Suc n)
  then have ik: "i < chunks" by simp
  with Suc.prems have "chunk_accepted w i" by simp
  then obtain r' where a: "chunk_answer w i = Some r'"
    and b: "chunk_body w u d cs chunks i = Inr (accepted_events u d cs chunks i, r')"
    using chunk_body_accepted by blast
  have "chunk_loop w u d cs chunks (i + 1) (Some r') =
          (concat (map (accepted_events u d cs chunks) [i + 1..<chunks]),
           final_outcome (if i + 1 < chunks then chunk_answer w (chunks - 1) else Some r'))"
    using Suc.hyps Suc.prems ik by (intro Suc.hyps(1)) auto
  moreover have "[i..<chunks] = i # [i + 1..<chunks]"
    using ik by (simp add: upt_conv_Cons)
  moreover have "(if i + 1 < chunks then chunk_answer w (chunks - 1) else Some r') = chunk_answer w (chunks - 1)"
  proof (cases "i + 1 < chunks")
    case True
    then show ?thesis by simp
  next
    case False
    with ik have "chunks - 1 = i" by arith
    with False a show ?thesis by simp
  qed
  ultimately show ?case
    using ik b
    by (simp add: chunk_loop.simps [of w u d cs chunks i] prepend_def)
qed

lemma first_rejected:
  assumes "\<not> (\<forall>j<chunks. chunk_accepted w j)"
  obtains k where "k < chunks" "\<not> chunk_accepted w k" "\<forall>j<k. chunk_accepted w j"
proof -
  define k where "k = (LEAST j. \<not> chunk_accepted w j)"
  from assms obtain j where j: "j < chunks" "\<not> chunk_accepted w j" by blast
  have 1: "\<not> chunk_accepted w k" unfolding k_def using j(2) by (rule LeastI)
  have "k \<le> j" unfolding k_def using j(2) by (rule Least_le)
  with j(1) have 2: "k < chunks" by simp
  have 3: "\<forall>j<k. chunk_accepted w j"
    unfolding k_def using not_less_Least by blast
  from 2 1 3 show ?thesis by (rule that)
qed

section \<open>Chunk ranges\<close>

lemma chunk_nonempty:
  assumes "0 < cs" "i < total_chunks tot cs"
  shows "chunk_start cs i < chunk_stop cs tot i"
  using total_chunks_lower [OF assms] assms(1)
  by (simp add: chunk_start_def chunk_stop_def)

lemma chunk_length_le: "chunk_stop cs tot i - chunk_start cs i \<le> cs"
  by (simp add: chunk_start_def chunk_stop_def)

lemma chunk_full:
  assumes "0 < cs" "Suc i < total_chunks tot cs"
  shows "chunk_stop cs tot i = chunk_start cs (Suc i)"
    and "chunk_stop cs tot i - chunk_start cs i = cs"
  using total_chunks_lower [OF assms]
  by (simp_all add: chunk_start_def chunk_stop_def)

lemma chunk_last:
  assumes "0 < cs" "0 < tot"
  shows "chunk_stop cs tot (total_chunks tot cs - 1) = tot"
proof -
  have "0 < total_chunks tot cs" using assms by (rule total_chunks_pos)
  then have "(total_chunks tot cs - 1) * cs + cs = total_chunks tot cs * cs"
    by (cases "total_chunks tot cs") simp_all
  with total_chunks_upper [OF assms(1), of tot] show ?thesis
    by (simp add: chunk_start_def chunk_stop_def)
qed

lemma chunk_offsets_prefix:
  assumes "0 < cs"
  shows "m \<le> total_chunks tot cs \<Longrightarrow>
         concat (map (\<lambda>i. [chunk_start cs i..<chunk_stop cs tot i]) [0..<m]) = [0..<min (m * cs) tot]"
proof (induction m)
  case 0
  then show ?case by simp
next
  case (Suc m)
  then have m: "m < total_chunks tot cs" by simp
  then have lt: "m * cs < tot" using assms by (intro total_chunks_lower)
  then have "min (m * cs) tot = m * cs" by simp
  moreover have "[0..<m * cs] @ [m * cs..<min (m * cs + cs) tot] = [0..<min (m * cs + cs) tot]"
  proof -
    have "m * cs \<le> min (m * cs + cs) tot" using lt by simp
    then obtain k where "min (m * cs + cs) tot = m * cs + k"
      using le_Suc_ex by blast
    then show ?thesis
      using upt_add_eq_append [of 0 "m * cs" k] by simp
  qed
  ultimately show ?case
    using Suc.IH m by (simp add: chunk_start_def chunk_stop_def add.commute)
qed

lemma chunk_offsets_all:
  assumes "0 < cs"
  shows "concat (map (\<lambda>i. [chunk_start cs i..<chunk_stop cs tot i]) [0..<total_chunks tot cs]) = [0..<tot]"
  using chunk_offsets_prefix [OF assms, of "total_chunks tot cs" tot] total_chunks_upper [OF assms, of tot]
  by simp

text \<open>
  Claim C1. For every total size of at least 1 and every chunk size of at least 1, the
  ranges the driver computes (\<open>start = i * cs\<close>, \<open>stop = min (start + cs) tot\<close>, for
  \<open>i\<close> below \<open>total_chunks tot cs = ceil (tot / cs)\<close>) partition \<open>[0, tot)\<close>: there is at
  least one range, the first starts at 0, the last stops at \<open>tot\<close>, every range is
  non-empty and at most \<open>cs\<close> long, every range but the last is exactly \<open>cs\<close> long and
  stops where the next one starts, and the offsets of the ranges, listed in index
  order, are \<open>0, 1, ..., tot - 1\<close> with nothing missing and nothing twice.
\<close>

theorem chunk_ranges_partition:
  assumes "1 \<le> tot" "1 \<le> cs"
  shows "1 \<le> total_chunks tot cs \<and>
         chunk_start cs 0 = 0 \<and>
         chunk_stop cs tot (total_chunks tot cs - 1) = tot \<and>
         (\<forall>i<total_chunks tot cs.
            chunk_start cs i < chunk_stop cs tot i \<and>
            chunk_stop cs tot i - chunk_start cs i \<le> cs) \<and>
         (\<forall>i. Suc i < total_chunks tot cs \<longrightarrow>
            chunk_stop cs tot i = chunk_start cs (Suc i) \<and>
            chunk_stop cs tot i - chunk_start cs i = cs) \<and>
         concat (map (\<lambda>i. [chunk_start cs i..<chunk_stop cs tot i]) [0..<total_chunks tot cs])
           = [0..<tot]"
proof -
  from assms have cs: "0 < cs" and tot: "0 < tot" by simp_all
  have "1 \<le> total_chunks tot cs" using total_chunks_pos [OF cs tot] by simp
  moreover have "chunk_start cs 0 = 0" by (simp add: chunk_start_def)
  moreover note chunk_last [OF cs tot]
  moreover have "\<forall>i<total_chunks tot cs.
            chunk_start cs i < chunk_stop cs tot i \<and>
            chunk_stop cs tot i - chunk_start cs i \<le> cs"
    using chunk_nonempty [OF cs] chunk_length_le by blast
  moreover have "\<forall>i. Suc i < total_chunks tot cs \<longrightarrow>
            chunk_stop cs tot i = chunk_start cs (Suc i) \<and>
            chunk_stop cs tot i - chunk_start cs i = cs"
    using chunk_full [OF cs] by blast
  moreover note chunk_offsets_all [OF cs, of tot]
  ultimately show ?thesis by blast
qed

theorem chunk_ranges_partition_witness:
  "(1::nat) \<le> 10 \<and> (1::nat) \<le> 4 \<and> total_chunks 10 4 = 3 \<and>
   map (\<lambda>i. (chunk_start 4 i, chunk_stop 4 10 i)) [0..<total_chunks 10 4] = [(0, 4), (4, 8), (8, 10)] \<and>
   concat (map (\<lambda>i. [chunk_start 4 i..<chunk_stop 4 10 i]) [0..<total_chunks 10 4]) = [0..<10]"
proof -
  have n: "total_chunks 10 4 = 3" by (simp add: total_chunks_def)
  have u: "[0..<3] = [0, 1, 2]" by (simp add: upt_rec)
  have "map (\<lambda>i. (chunk_start 4 i, chunk_stop 4 10 i)) [0..<total_chunks 10 4] = [(0, 4), (4, 8), (8, 10)]"
    by (simp add: n u chunk_start_def chunk_stop_def)
  with n chunk_ranges_partition [of 10 4] show ?thesis by simp
qed

section \<open>Runs of the driver\<close>

lemma event_requests_append: "event_requests (xs @ ys) = event_requests xs @ event_requests ys"
  by (induction xs rule: event_requests.induct) simp_all

lemma event_progress_append: "event_progress (xs @ ys) = event_progress xs @ event_progress ys"
  by (induction xs rule: event_progress.induct) simp_all

lemma event_reports_append: "event_reports (xs @ ys) = event_reports xs @ event_reports ys"
  by (induction xs rule: event_reports.induct) simp_all

lemma event_requests_accepted:
  "event_requests (concat (map (accepted_events u d cs chunks) is)) = map (chunk_request u d cs) is"
  by (induction "is") (simp_all add: accepted_events_def)

lemma event_progress_accepted:
  "event_progress (concat (map (accepted_events u d cs chunks) is)) = map (progress_value chunks) is"
  by (induction "is") (simp_all add: accepted_events_def)

lemma event_reports_accepted:
  "event_reports (concat (map (accepted_events u d cs chunks) is)) = []"
  by (induction "is") (simp_all add: accepted_events_def)

lemma driver_accepted:
  assumes "upload_session w = Inr u" "0 < cs"
    and "\<forall>j<total_chunks (length (getvalue f)) cs. chunk_accepted w j"
  shows "upload_large_file_cs cs w tok f folder =
           (Request (session_request tok f folder) # StProgress 0 #
              concat (map (accepted_events u (getvalue f) cs (total_chunks (length (getvalue f)) cs))
                        [0..<total_chunks (length (getvalue f)) cs]),
            final_outcome (if 0 < total_chunks (length (getvalue f)) cs
                           then chunk_answer w (total_chunks (length (getvalue f)) cs - 1)
                           else None))"
  using assms loop_accepted [of 0 "total_chunks (length (getvalue f)) cs" w u "getvalue f" cs None]
  by (simp add: upload_large_file_cs_def prepend_def)

lemma driver_rejected:
  assumes "upload_session w = Inr u" "0 < cs"
    and "k < total_chunks (length (getvalue f)) cs"
    and "\<forall>j<k. chunk_accepted w j"
    and "chunk_body w u (getvalue f) cs (total_chunks (length (getvalue f)) cs) k = Inl res"
  shows "upload_large_file_cs cs w tok f folder =
           prepend (Request (session_request tok f folder) # StProgress 0 #
                      concat (map (accepted_events u (getvalue f) cs (total_chunks (length (getvalue f)) cs))
                        [0..<k])) res"
  using assms loop_rejected [of k "total_chunks (length (getvalue f)) cs" w u "getvalue f" cs res 0 None]
  by (simp add: upload_large_file_cs_def prepend_def)

lemma progress_increasing: "0 < chunks \<Longrightarrow> sorted_wrt (<) (map (progress_value chunks) [i..<k])"
  by (rule sorted_wrt_map_mono [OF sorted_wrt_upt])
     (simp add: progress_value_def divide_strict_right_mono)

text \<open>
  Claim C5. On a run in which the session is created and every chunk is accepted,
  for a file of at least one byte and a chunk size of at least 1 (so that there is at
  least one chunk), the values passed to \<^verbatim>\<open>progress.progress\<close> are \<open>(i + 1) / chunks\<close> for
  \<open>i = 0, ..., chunks - 1\<close> in this order; the sequence is strictly increasing and its
  last value is exactly 1.
\<close>

theorem progress_sequence:
  assumes "upload_session w = Inr u" "1 \<le> cs" "1 \<le> length (getvalue f)"
    and "\<forall>j<total_chunks (length (getvalue f)) cs. chunk_accepted w j"
  shows "event_progress (fst (upload_large_file_cs cs w tok f folder)) =
           map (\<lambda>i. (real i + 1) / real (total_chunks (length (getvalue f)) cs))
             [0..<total_chunks (length (getvalue f)) cs] \<and>
         sorted_wrt (<) (event_progress (fst (upload_large_file_cs cs w tok f folder))) \<and>
         last (event_progress (fst (upload_large_file_cs cs w tok f folder))) = 1"
proof -
  let ?n = "total_chunks (length (getvalue f)) cs"
  from assms(2) have cs: "0 < cs" by linarith
  from assms(3) have "0 < length (getvalue f)" by linarith
  with cs have n: "0 < ?n" by (rule total_chunks_pos)
  have p: "event_progress (fst (upload_large_file_cs cs w tok f folder)) =
             map (progress_value ?n) [0..<?n]"
    by (simp add: driver_accepted [OF assms(1) cs assms(4)] event_progress_accepted)
  have "map (progress_value ?n) [0..<?n] = map (\<lambda>i. (real i + 1) / real ?n) [0..<?n]"
    by (simp add: progress_value_def)
  moreover have "last (map (progress_value ?n) [0..<?n]) = 1"
    using n by (simp add: last_map progress_value_def)
  ultimately show ?thesis
    using p progress_increasing [OF n, of 0 ?n] by simp
qed

theorem progress_sequence_witness:
  "upload_session world_ok = Inr (JStr ''https://upload.example/session'') \<and>
   (1::nat) \<le> 2 \<and> 1 \<le> length (getvalue (file_of [1, 2, 3, 4, 5])) \<and>
   total_chunks (length (getvalue (file_of [1, 2, 3, 4, 5]))) 2 = 3 \<and>
   chunk_accepted world_ok 0 \<and> chunk_accepted world_ok 1 \<and> chunk_accepted world_ok 2 \<and>
   event_progress (fst (upload_large_file_cs 2 world_ok ''t'' (file_of [1, 2, 3, 4, 5]) ''root''))
     = [1 / 3, 2 / 3, 1]"
proof -
  have s: "upload_session world_ok = Inr (JStr ''https://upload.example/session'')"
    by (simp add: upload_session_def world_ok_def session_created_def)
  have a: "\<forall>j<total_chunks (length (getvalue (file_of [1, 2, 3, 4, 5]))) 2. chunk_accepted world_ok j"
    by (simp add: chunk_accepted_def world_ok_def status_ok_def)
  have l: "1 \<le> length (getvalue (file_of [1, 2, 3, 4, 5]))"
    by (simp add: file_of_def)
  have n: "total_chunks (length (getvalue (file_of [1, 2, 3, 4, 5]))) 2 = 3"
    by (simp add: file_of_def total_chunks_def)
  have u: "[0..<3] = [0, 1, 2]" by (simp add: upt_rec)
  have a': "chunk_accepted world_ok 0 \<and> chunk_accepted world_ok 1 \<and> chunk_accepted world_ok 2"
    by (simp add: chunk_accepted_def world_ok_def status_ok_def)
  from progress_sequence [OF s _ l a, of "''t''" "''root''"] s a' l
  show ?thesis by (simp add: n u)
qed

section \<open>Outcome of the driver\<close>

lemma length_zero_bytes: "length (zero_bytes n) = n"
  by (simp add: zero_bytes_def)

lemma getvalue_file_of: "getvalue (file_of bs) = bs"
  by (simp add: file_of_def)

lemma chunks_819200: "total_chunks (length (getvalue (file_of (zero_bytes 819200)))) CHUNK_SIZE = 3"
  by (simp add: getvalue_file_of length_zero_bytes total_chunks_def CHUNK_SIZE_def)

lemma chunks_zero_bytes: "total_chunks (length (zero_bytes 819200)) CHUNK_SIZE = 3"
  by (simp add: length_zero_bytes total_chunks_def CHUNK_SIZE_def)

lemma CHUNK_SIZE_pos: "0 < CHUNK_SIZE"
  by (simp add: CHUNK_SIZE_def)

lemma upload_session_world_ok:
  "upload_session world_ok = Inr (JStr ''https://upload.example/session'')"
  by (simp add: upload_session_def world_ok_def session_created_def)

lemma upload_session_world_reject:
  "upload_session (world_reject k s) = Inr (JStr ''https://upload.example/session'')"
  by (simp add: upload_session_def world_reject_def world_ok_def session_created_def)

lemma chunk_accepted_world_ok: "chunk_accepted world_ok j"
  by (simp add: chunk_accepted_def world_ok_def status_ok_def)

lemma chunk_accepted_world_reject: "j \<noteq> k \<Longrightarrow> chunk_accepted (world_reject k s) j"
  by (simp add: chunk_accepted_def world_reject_def world_ok_def status_ok_def)

lemma chunk_answer_world_reject:
  "chunk_answer (world_reject k s) k =
     Some \<lparr>status_code = s, json_body = Some (JObj [(''error'', JStr ''rejected'')])\<rparr>"
  by (simp add: world_reject_def)

lemma puts_of_chunk_requests:
  "filter (\<lambda>q. req_method q = PUT) (map (chunk_request u d cs) is) = map (chunk_request u d cs) is"
  by (induction "is") (simp_all add: chunk_request_def)

lemma chunk_body_status:
  assumes "chunk_answer w k = Some r" "\<not> status_ok (status_code r)"
  shows "chunk_body w u d cs n k =
           Inl (Request (chunk_request u d cs k) # StError ''Chunk upload failed'' #
                  (case json_body r of None \<Rightarrow> [] | Some j \<Rightarrow> [StJson j]),
                case json_body r of None \<Rightarrow> Raised JSONDecodeError | Some j \<Rightarrow> Stopped)"
  using assms by (simp add: chunk_body_def Let_def split: option.splits)

text \<open>
  Claim C4, as the code has it. When the session is created, the file has at least
  one byte, the chunk size is at least 1 and every chunk is accepted, the driver
  returns, and what it returns is the response to the last chunk. An empty file is
  outside this statement; \<open>driver_zero_length_counterexample\<close> below evaluates the
  driver there.
\<close>

theorem driver_returns_last:
  assumes "upload_session w = Inr u" "1 \<le> cs" "1 \<le> length (getvalue f)"
    and "\<forall>j<total_chunks (length (getvalue f)) cs. chunk_accepted w j"
  shows "\<exists>r. chunk_answer w (total_chunks (length (getvalue f)) cs - 1) = Some r \<and>
             status_ok (status_code r) \<and>
             snd (upload_large_file_cs cs w tok f folder) = Returned r"
proof -
  let ?n = "total_chunks (length (getvalue f)) cs"
  from assms(2) have cs: "0 < cs" by linarith
  from assms(3) have "0 < length (getvalue f)" by linarith
  with cs have n: "0 < ?n" by (rule total_chunks_pos)
  then have "chunk_accepted w (?n - 1)" using assms(4) by simp
  then obtain r where r: "chunk_answer w (?n - 1) = Some r" "status_ok (status_code r)"
    using chunk_body_accepted by blast
  have "snd (upload_large_file_cs cs w tok f folder) = Returned r"
    using n r(1) by (simp add: driver_accepted [OF assms(1) cs assms(4)] final_outcome_def)
  with r show ?thesis by blast
qed

theorem driver_returns_last_witness:
  "upload_session world_ok = Inr (JStr ''https://upload.example/session'') \<and>
   (1::nat) \<le> CHUNK_SIZE \<and> 1 \<le> length (getvalue (file_of (zero_bytes 819200))) \<and>
   total_chunks (length (getvalue (file_of (zero_bytes 819200)))) CHUNK_SIZE = 3 \<and>
   chunk_accepted world_ok 0 \<and> chunk_accepted world_ok 1 \<and> chunk_accepted world_ok 2 \<and>
   snd (upload_large_file_cs CHUNK_SIZE world_ok ''t'' (file_of (zero_bytes 819200)) ''root'')
     = Returned \<lparr>status_code = 202, json_body = Some (JObj [])\<rparr>"
proof -
  have c: "(1::nat) \<le> CHUNK_SIZE" by (simp add: CHUNK_SIZE_def)
  have l: "1 \<le> length (getvalue (file_of (zero_bytes 819200)))"
    by (simp add: getvalue_file_of length_zero_bytes)
  have a: "\<forall>j<total_chunks (length (getvalue (file_of (zero_bytes 819200)))) CHUNK_SIZE.
      chunk_accepted world_ok j"
    by (simp add: chunk_accepted_world_ok)
  from driver_returns_last [OF upload_session_world_ok c l a, of "''t''" "''root''"]
  have "snd (upload_large_file_cs CHUNK_SIZE world_ok ''t'' (file_of (zero_bytes 819200)) ''root'')
     = Returned \<lparr>status_code = 202, json_body = Some (JObj [])\<rparr>"
    by (auto simp: world_ok_def)
  with upload_session_world_ok c l chunks_819200 chunk_accepted_world_ok show ?thesis by blast
qed

text \<open>
  Claim C4 as stated fails for an empty file: the number of chunks is 0, the loop
  body never runs, and \<^verbatim>\<open>return r\<close> finds \<^verbatim>\<open>r\<close> unbound. The driver has sent the
  session request and created the progress bar, and ends with \<^verbatim>\<open>UnboundLocalError\<close>
  instead of a result.
\<close>

theorem driver_zero_length_counterexample:
  "total_chunks (length (getvalue (file_of []))) CHUNK_SIZE = 0 \<and>
   upload_large_file world_ok ''t'' (file_of []) ''root'' =
     ([Request (session_request ''t'' (file_of []) ''root''), StProgress 0],
      Raised UnboundLocalError)"
  by (simp add: upload_large_file_def upload_large_file_cs_def upload_session_world_ok
        getvalue_file_of total_chunks_def CHUNK_SIZE_def chunk_loop.simps prepend_def)

text \<open>
  Claim C2, as the code has it. If chunk \<open>k\<close> is answered with a status outside
  200, 201, 202 and all chunks before it were accepted, then the chunk requests sent
  are those of the indices \<open>0, ..., k\<close>, each once and in this order, so chunk \<open>k\<close> is
  not sent again and no later chunk is sent. What the driver reports is the fixed
  text \<^verbatim>\<open>Chunk upload failed\<close> through \<^verbatim>\<open>st.error\<close> and the decoded body of the response
  through \<^verbatim>\<open>st.json\<close>, and it ends the script run with \<^verbatim>\<open>st.stop()\<close>; when the body
  does not decode, only the text is reported and the decoding error leaves the driver.
\<close>

theorem chunk_failure_stops:
  assumes "upload_session w = Inr u" "0 < cs"
    and "k < total_chunks (length (getvalue f)) cs"
    and "\<forall>j<k. chunk_accepted w j"
    and "chunk_answer w k = Some r" "\<not> status_ok (status_code r)"
  shows "chunk_puts (fst (upload_large_file_cs cs w tok f folder)) =
           map (chunk_request u (getvalue f) cs) [0..<Suc k] \<and>
         event_reports (fst (upload_large_file_cs cs w tok f folder)) =
           StError ''Chunk upload failed'' #
             (case json_body r of None \<Rightarrow> [] | Some j \<Rightarrow> [StJson j]) \<and>
         snd (upload_large_file_cs cs w tok f folder) =
           (case json_body r of None \<Rightarrow> Raised JSONDecodeError | Some j \<Rightarrow> Stopped)"
proof -
  let ?n = "total_chunks (length (getvalue f)) cs"
  note b = chunk_body_status [OF assms(5,6), of u "getvalue f" cs ?n]
  note run = driver_rejected [OF assms(1-4) b, of tok folder]
  have 1: "chunk_puts (fst (upload_large_file_cs cs w tok f folder)) =
           map (chunk_request u (getvalue f) cs) [0..<Suc k]"
    by (simp add: run chunk_puts_def fst_prepend event_requests_append event_requests_accepted
          session_request_def puts_of_chunk_requests chunk_request_def split: option.splits)
  have 2: "event_reports (fst (upload_large_file_cs cs w tok f folder)) =
           StError ''Chunk upload failed'' #
             (case json_body r of None \<Rightarrow> [] | Some j \<Rightarrow> [StJson j])"
    by (simp add: run fst_prepend event_reports_append event_reports_accepted
          split: option.splits)
  have 3: "snd (upload_large_file_cs cs w tok f folder) =
           (case json_body r of None \<Rightarrow> Raised JSONDecodeError | Some j \<Rightarrow> Stopped)"
    by (simp add: run snd_prepend)
  from 1 2 3 show ?thesis by blast
qed

lemma world_reject_run:
  assumes "k < 3" "\<not> status_ok s"
  shows "upload_large_file (world_reject k s) ''t'' (file_of (zero_bytes 819200)) ''root'' =
           (Request (session_request ''t'' (file_of (zero_bytes 819200)) ''root'') # StProgress 0 #
              concat (map (accepted_events (JStr ''https://upload.example/session'')
                             (zero_bytes 819200) CHUNK_SIZE 3) [0..<k]) @
              [Request (chunk_request (JStr ''https://upload.example/session'')
                          (zero_bytes 819200) CHUNK_SIZE k),
               StError ''Chunk upload failed'', StJson (JObj [(''error'', JStr ''rejected'')])],
            Stopped)"
proof -
  have k: "k < total_chunks (length (getvalue (file_of (zero_bytes 819200)))) CHUNK_SIZE"
    using assms(1) by (simp add: chunks_819200)
  have a: "\<forall>j<k. chunk_accepted (world_reject k s) j"
    by (simp add: chunk_accepted_world_reject)
  have s: "\<not> status_ok (status_code
             \<lparr>status_code = s, json_body = Some (JObj [(''error'', JStr ''rejected'')])\<rparr>)"
    using assms(2) by simp
  note b = chunk_body_status [OF chunk_answer_world_reject s]
  show ?thesis
    unfolding upload_large_file_def
    by (simp add: driver_rejected [OF upload_session_world_reject CHUNK_SIZE_pos k a b]
          chunks_zero_bytes getvalue_file_of prepend_def)
qed

theorem chunk_failure_stops_witness:
  "upload_session (world_reject 1 500) = Inr (JStr ''https://upload.example/session'') \<and>
   0 < CHUNK_SIZE \<and>
   1 < total_chunks (length (getvalue (file_of (zero_bytes 819200)))) CHUNK_SIZE \<and>
   chunk_accepted (world_reject 1 500) 0 \<and>
   chunk_answer (world_reject 1 500) 1 =
     Some \<lparr>status_code = 500, json_body = Some (JObj [(''error'', JStr ''rejected'')])\<rparr> \<and>
   \<not> status_ok 500 \<and>
   chunk_puts (fst (upload_large_file_cs CHUNK_SIZE (world_reject 1 500) ''t''
                      (file_of (zero_bytes 819200)) ''root'')) =
     [chunk_request (JStr ''https://upload.example/session'') (zero_bytes 819200) CHUNK_SIZE 0,
      chunk_request (JStr ''https://upload.example/session'') (zero_bytes 819200) CHUNK_SIZE 1] \<and>
   event_reports (fst (upload_large_file_cs CHUNK_SIZE (world_reject 1 500) ''t''
                         (file_of (zero_bytes 819200)) ''root'')) =
     [StError ''Chunk upload failed'', StJson (JObj [(''error'', JStr ''rejected'')])] \<and>
   snd (upload_large_file_cs CHUNK_SIZE (world_reject 1 500) ''t''
          (file_of (zero_bytes 819200)) ''root'') = Stopped"
proof -
  have k: "1 < total_chunks (length (getvalue (file_of (zero_bytes 819200)))) CHUNK_SIZE"
    by (simp add: chunks_819200)
  have a: "\<forall>j<1. chunk_accepted (world_reject 1 500) j"
    by (simp add: chunk_accepted_world_reject)
  have n: "\<not> status_ok 500" by (simp add: status_ok_def)
  then have s: "\<not> status_ok (status_code
             \<lparr>status_code = 500, json_body = Some (JObj [(''error'', JStr ''rejected'')])\<rparr>)"
    by simp
  have u: "[0..<Suc 1] = [0, 1]" by (simp add: upt_rec)
  from chunk_failure_stops [OF upload_session_world_reject CHUNK_SIZE_pos k a
         chunk_answer_world_reject s, of "''t''" "''root''"]
    upload_session_world_reject [of 1 500] CHUNK_SIZE_pos k chunk_answer_world_reject [of 1 500] n
    chunk_accepted_world_reject [of 0 1 500]
  show ?thesis by (simp add: u getvalue_file_of)
qed

text \<open>
  Claim C2 as stated says that the driver reports the index of the failing chunk and
  the status of the response. It reports neither: a rejection of chunk 1 with status
  500 and one with status 404, with the same body, give the same trace and the same
  outcome, and a rejection of chunk 0 and one of chunk 1 give the same error output.
\<close>

theorem chunk_failure_report_counterexample:
  "chunk_answer (world_reject 1 500) 1 =
     Some \<lparr>status_code = 500, json_body = Some (JObj [(''error'', JStr ''rejected'')])\<rparr> \<and>
   chunk_answer (world_reject 1 404) 1 =
     Some \<lparr>status_code = 404, json_body = Some (JObj [(''error'', JStr ''rejected'')])\<rparr> \<and>
   upload_large_file (world_reject 1 500) ''t'' (file_of (zero_bytes 819200)) ''root'' =
     upload_large_file (world_reject 1 404) ''t'' (file_of (zero_bytes 819200)) ''root'' \<and>
   event_reports (fst (upload_large_file (world_reject 0 500) ''t''
                         (file_of (zero_bytes 819200)) ''root'')) =
     event_reports (fst (upload_large_file (world_reject 1 500) ''t''
                           (file_of (zero_bytes 819200)) ''root'')) \<and>
   event_reports (fst (upload_large_file (world_reject 1 500) ''t''
                         (file_of (zero_bytes 819200)) ''root'')) =
     [StError ''Chunk upload failed'', StJson (JObj [(''error'', JStr ''rejected'')])] \<and>
   snd (upload_large_file (world_reject 0 500) ''t'' (file_of (zero_bytes 819200)) ''root'') =
     Stopped \<and>
   snd (upload_large_file (world_reject 1 500) ''t'' (file_of (zero_bytes 819200)) ''root'') =
     Stopped"
proof -
  have n5: "\<not> status_ok 500" and n4: "\<not> status_ok 404" by (simp_all add: status_ok_def)
  have r1: "event_reports (fst (upload_large_file (world_reject 1 500) ''t''
                         (file_of (zero_bytes 819200)) ''root'')) =
     [StError ''Chunk upload failed'', StJson (JObj [(''error'', JStr ''rejected'')])]"
    by (simp add: world_reject_run [OF _ n5] accepted_events_def)
  have r0: "event_reports (fst (upload_large_file (world_reject 0 500) ''t''
                         (file_of (zero_bytes 819200)) ''root'')) =
     [StError ''Chunk upload failed'', StJson (JObj [(''error'', JStr ''rejected'')])]"
    by (simp add: world_reject_run [OF _ n5])
  have e: "upload_large_file (world_reject 1 500) ''t'' (file_of (zero_bytes 819200)) ''root'' =
     upload_large_file (world_reject 1 404) ''t'' (file_of (zero_bytes 819200)) ''root''"
    by (simp add: world_reject_run [OF _ n5] world_reject_run [OF _ n4])
  have s0: "snd (upload_large_file (world_reject 0 500) ''t'' (file_of (zero_bytes 819200)) ''root'') =
     Stopped"
    by (simp add: world_reject_run [OF _ n5])
  have s1: "snd (upload_large_file (world_reject 1 500) ''t'' (file_of (zero_bytes 819200)) ''root'') =
     Stopped"
    by (simp add: world_reject_run [OF _ n5])
  from r0 r1 e s0 s1 chunk_answer_world_reject [of 1 500] chunk_answer_world_reject [of 1 404]
  show ?thesis by simp
qed

text \<open>
  The other case of the failure branch, evaluated: chunk 1 is answered with status 503
  and a body that is not JSON. The text \<^verbatim>\<open>Chunk upload failed\<close> is reported, \<^verbatim>\<open>r.json()\<close>
  raises before \<^verbatim>\<open>st.json\<close> and \<^verbatim>\<open>st.stop()\<close> are reached, and chunk 2 is never sent.
\<close>

lemma undecodable_body_run:
  "upload_large_file (world_reject_undecodable 1 503) ''t'' (file_of (zero_bytes 819200)) ''root'' =
     (Request (session_request ''t'' (file_of (zero_bytes 819200)) ''root'') # StProgress 0 #
        accepted_events (JStr ''https://upload.example/session'') (zero_bytes 819200) CHUNK_SIZE 3 0 @
        [Request (chunk_request (JStr ''https://upload.example/session'')
                    (zero_bytes 819200) CHUNK_SIZE 1),
         StError ''Chunk upload failed''],
      Raised JSONDecodeError)"
proof -
  let ?w = "world_reject_undecodable 1 503"
  have u: "upload_session ?w = Inr (JStr ''https://upload.example/session'')"
    by (simp add: upload_session_def world_reject_undecodable_def world_ok_def session_created_def)
  have k: "1 < total_chunks (length (getvalue (file_of (zero_bytes 819200)))) CHUNK_SIZE"
    by (simp add: chunks_819200)
  have a: "\<forall>j<1. chunk_accepted ?w j"
    by (simp add: chunk_accepted_def world_reject_undecodable_def world_ok_def status_ok_def)
  have c: "chunk_answer ?w 1 = Some \<lparr>status_code = 503, json_body = None\<rparr>"
    by (simp add: world_reject_undecodable_def)
  have s: "\<not> status_ok (status_code \<lparr>status_code = 503, json_body = None\<rparr>)"
    by (simp add: status_ok_def)
  note b = chunk_body_status [OF c s]
  from driver_rejected [OF u CHUNK_SIZE_pos k a b, of "''t''" "''root''"]
  show ?thesis
    unfolding upload_large_file_def
    by (simp add: chunks_zero_bytes getvalue_file_of prepend_def)
qed

section \<open>Order of the chunk requests\<close>

lemma posts_of_chunk_requests:
  "filter (\<lambda>q. req_method q = POST) (map (chunk_request u d cs) is) = []"
  by (induction "is") (simp_all add: chunk_request_def)

lemma driver_view_accepted:
  assumes "upload_session w = Inr u" "0 < cs"
    and "\<forall>j<total_chunks (length (getvalue f)) cs. chunk_accepted w j"
  shows "event_requests (fst (upload_large_file_cs cs w tok f folder)) =
           session_request tok f folder #
             map (chunk_request u (getvalue f) cs) [0..<total_chunks (length (getvalue f)) cs]"
    and "event_progress (fst (upload_large_file_cs cs w tok f folder)) =
           map (progress_value (total_chunks (length (getvalue f)) cs))
             [0..<total_chunks (length (getvalue f)) cs]"
  by (simp_all add: driver_accepted [OF assms] event_requests_accepted event_progress_accepted)

lemma driver_view_rejected:
  assumes "upload_session w = Inr u" "0 < cs"
    and "k < total_chunks (length (getvalue f)) cs"
    and "\<forall>j<k. chunk_accepted w j"
    and "\<not> chunk_accepted w k"
  shows "event_requests (fst (upload_large_file_cs cs w tok f folder)) =
           session_request tok f folder # map (chunk_request u (getvalue f) cs) [0..<Suc k]"
    and "event_progress (fst (upload_large_file_cs cs w tok f folder)) =
           map (progress_value (total_chunks (length (getvalue f)) cs)) [0..<k]"
    and "snd (upload_large_file_cs cs w tok f folder) = Stopped \<or>
         snd (upload_large_file_cs cs w tok f folder) = Raised RequestException \<or>
         snd (upload_large_file_cs cs w tok f folder) = Raised JSONDecodeError"
proof -
  let ?n = "total_chunks (length (getvalue f)) cs"
  from chunk_body_rejected [OF assms(5), of u "getvalue f" cs ?n]
  obtain res where res: "chunk_body w u (getvalue f) cs ?n k = Inl res"
    and rq: "event_requests (fst res) = [chunk_request u (getvalue f) cs k]"
    and pr: "event_progress (fst res) = []"
    and out: "snd res = Stopped \<or> snd res = Raised RequestException \<or>
              snd res = Raised JSONDecodeError"
    by blast
  note run = driver_rejected [OF assms(1-4) res, of tok folder]
  show "event_requests (fst (upload_large_file_cs cs w tok f folder)) =
           session_request tok f folder # map (chunk_request u (getvalue f) cs) [0..<Suc k]"
    by (simp add: run fst_prepend event_requests_append event_requests_accepted rq)
  show "event_progress (fst (upload_large_file_cs cs w tok f folder)) =
           map (progress_value ?n) [0..<k]"
    by (simp add: run fst_prepend event_progress_append event_progress_accepted pr)
  show "snd (upload_large_file_cs cs w tok f folder) = Stopped \<or>
         snd (upload_large_file_cs cs w tok f folder) = Raised RequestException \<or>
         snd (upload_large_file_cs cs w tok f folder) = Raised JSONDecodeError"
    using out by (simp add: run snd_prepend)
qed

lemma driver_requests:
  assumes "upload_session w = Inr u" "0 < cs"
  shows "\<exists>m\<le>total_chunks (length (getvalue f)) cs.
           event_requests (fst (upload_large_file_cs cs w tok f folder)) =
             session_request tok f folder # map (chunk_request u (getvalue f) cs) [0..<m] \<and>
           (\<forall>j<m. \<forall>i<j. chunk_accepted w i)"
proof (cases "\<forall>j<total_chunks (length (getvalue f)) cs. chunk_accepted w j")
  case True
  then show ?thesis
    using driver_view_accepted(1) [OF assms True, of tok folder] by auto
next
  case False
  then obtain k where k: "k < total_chunks (length (getvalue f)) cs" "\<not> chunk_accepted w k"
    "\<forall>j<k. chunk_accepted w j"
    by (rule first_rejected)
  have "\<forall>j<Suc k. \<forall>i<j. chunk_accepted w i" using k(3) by auto
  moreover have "Suc k \<le> total_chunks (length (getvalue f)) cs" using k(1) by simp
  ultimately show ?thesis
    using driver_view_rejected(1) [OF assms k(1) k(3) k(2), of tok folder] by blast
qed

lemma chunk_puts_of_requests:
  "event_requests evs = session_request tok f folder # map (chunk_request u d cs) is \<Longrightarrow>
   chunk_puts evs = map (chunk_request u d cs) is"
  by (simp add: chunk_puts_def session_request_def puts_of_chunk_requests)

lemma session_posts_of_requests:
  "event_requests evs = session_request tok f folder # map (chunk_request u d cs) is \<Longrightarrow>
   session_posts evs = [session_request tok f folder]"
  by (simp add: session_posts_def session_request_def posts_of_chunk_requests)

text \<open>
  Claim C7. In every run of the driver (with a session and a positive chunk size) the
  chunk requests sent are those of the indices \<open>0, 1, ..., m - 1\<close> for some \<open>m\<close> up to
  the number of chunks, in ascending order and each once; and for every chunk \<open>j\<close> that
  was sent, every chunk \<open>i < j\<close> had been answered with a success status before. The
  driver is one sequential function: a request is one event of the trace, and the answer
  to request \<open>i\<close> is consumed in pass \<open>i\<close> of the loop, before pass \<open>i + 1\<close> emits the next.
\<close>

theorem chunks_sent_in_order:
  assumes "upload_session w = Inr u" "0 < cs"
  shows "\<exists>m\<le>total_chunks (length (getvalue f)) cs.
           chunk_puts (fst (upload_large_file_cs cs w tok f folder)) =
             map (chunk_request u (getvalue f) cs) [0..<m] \<and>
           (\<forall>j<m. \<forall>i<j. chunk_accepted w i)"
  using driver_requests [OF assms, of f tok folder] chunk_puts_of_requests by metis

theorem chunks_sent_in_order_witness:
  "upload_session (world_reject 1 500) = Inr (JStr ''https://upload.example/session'') \<and>
   0 < CHUNK_SIZE \<and>
   chunk_puts (fst (upload_large_file_cs CHUNK_SIZE (world_reject 1 500) ''t''
                      (file_of (zero_bytes 819200)) ''root'')) =
     [chunk_request (JStr ''https://upload.example/session'') (zero_bytes 819200) CHUNK_SIZE 0,
      chunk_request (JStr ''https://upload.example/session'') (zero_bytes 819200) CHUNK_SIZE 1] \<and>
   chunk_accepted (world_reject 1 500) 0"
proof -
  let ?run = "upload_large_file_cs CHUNK_SIZE (world_reject 1 500) ''t''
                (file_of (zero_bytes 819200)) ''root''"
  have n: "\<not> status_ok 500" by (simp add: status_ok_def)
  have u: "[0..<Suc 0] = [0]" by simp
  have p: "chunk_puts (fst ?run) =
     [chunk_request (JStr ''https://upload.example/session'') (zero_bytes 819200) CHUNK_SIZE 0,
      chunk_request (JStr ''https://upload.example/session'') (zero_bytes 819200) CHUNK_SIZE 1]"
    using world_reject_run [of 1 500, OF _ n]
    by (simp add: upload_large_file_def chunk_puts_def accepted_events_def session_request_def
          chunk_request_def)
  from chunks_sent_in_order [OF upload_session_world_reject [of 1 500] CHUNK_SIZE_pos,
         where f = "file_of (zero_bytes 819200)" and tok = "''t''" and folder = "''root''"]
  obtain m where m: "chunk_puts (fst ?run) =
             map (chunk_request (JStr ''https://upload.example/session'')
                    (getvalue (file_of (zero_bytes 819200))) CHUNK_SIZE) [0..<m]"
    and a: "\<forall>j<m. \<forall>i<j. chunk_accepted (world_reject 1 500) i"
    by blast
  from m p have "length (map (chunk_request (JStr ''https://upload.example/session'')
                    (getvalue (file_of (zero_bytes 819200))) CHUNK_SIZE) [0..<m]) = 2"
    by simp
  then have "(1::nat) < m" and "(0::nat) < 1" by simp_all
  with a have "chunk_accepted (world_reject 1 500) 0" by blast
  with p upload_session_world_reject [of 1 500] CHUNK_SIZE_pos show ?thesis by simp
qed

section \<open>Contents of the chunk requests\<close>





section \<open>Determinism of the driver\<close>

lemma chunk_accepted_status:
  assumes "map_option status_code (chunk_answer w1 i) = map_option status_code (chunk_answer w2 i)"
  shows "chunk_accepted w1 i = chunk_accepted w2 i"
  using assms by (auto simp: chunk_accepted_def split: option.splits)

lemma driver_no_chunks:
  assumes "upload_session w = Inr u"
  shows "chunk_puts (fst (upload_large_file_cs 0 w tok f folder)) = []"
    and "event_progress (fst (upload_large_file_cs 0 w tok f folder)) = []"
  using assms
  by (simp_all add: upload_large_file_cs_def chunk_puts_def session_request_def)

text \<open>
  Claim C10. Two runs of the driver on files with the same bytes, with the same
  upload endpoint from the session and the same status (or the same failure of the
  call) for every chunk, send the same sequence of chunk requests (URL, headers and
  body) and report the same sequence of progress values. Nothing else matters: the
  tokens, the file names and media types, the folders, the bodies of the responses
  and the other answers of the service may differ.
\<close>

theorem driver_deterministic:
  assumes "getvalue f1 = getvalue f2"
    and "upload_session w1 = Inr u" "upload_session w2 = Inr u"
    and "\<forall>i. map_option status_code (chunk_answer w1 i) =
              map_option status_code (chunk_answer w2 i)"
  shows "chunk_puts (fst (upload_large_file_cs cs w1 tok1 f1 folder1)) =
           chunk_puts (fst (upload_large_file_cs cs w2 tok2 f2 folder2)) \<and>
         event_progress (fst (upload_large_file_cs cs w1 tok1 f1 folder1)) =
           event_progress (fst (upload_large_file_cs cs w2 tok2 f2 folder2))"
proof (cases "cs = 0")
  case True
  then show ?thesis
    using driver_no_chunks [OF assms(2)] driver_no_chunks [OF assms(3)] by simp
next
  case False
  then have cs: "0 < cs" by simp
  let ?n = "total_chunks (length (getvalue f1)) cs"
  have acc: "chunk_accepted w1 i = chunk_accepted w2 i" for i
    using assms(4) by (intro chunk_accepted_status) simp
  show ?thesis
  proof (cases "\<forall>j<?n. chunk_accepted w1 j")
    case True
    then have a1: "\<forall>j<total_chunks (length (getvalue f1)) cs. chunk_accepted w1 j" .
    from True have a2: "\<forall>j<total_chunks (length (getvalue f2)) cs. chunk_accepted w2 j"
      by (simp add: acc assms(1))
    show ?thesis
      using driver_view_accepted [OF assms(2) cs a1, of tok1 folder1]
        driver_view_accepted [OF assms(3) cs a2, of tok2 folder2]
      by (simp add: chunk_puts_def assms(1) session_request_def)
  next
    case False
    then obtain k where k: "k < ?n" "\<not> chunk_accepted w1 k" "\<forall>j<k. chunk_accepted w1 j"
      by (rule first_rejected)
    from k have k2: "k < total_chunks (length (getvalue f2)) cs" "\<not> chunk_accepted w2 k"
      "\<forall>j<k. chunk_accepted w2 j"
      by (simp_all add: acc assms(1))
    show ?thesis
      using driver_view_rejected(1,2) [OF assms(2) cs k(1) k(3) k(2), of tok1 folder1]
        driver_view_rejected(1,2) [OF assms(3) cs k2(1) k2(3) k2(2), of tok2 folder2]
      by (simp add: chunk_puts_def assms(1) session_request_def)
  qed
qed

theorem driver_deterministic_witness:
  "getvalue (file_of (zero_bytes 819200)) =
     getvalue ((file_of (zero_bytes 819200))\<lparr>file_type := ''text/plain''\<rparr>) \<and>
   upload_session (world_reject 1 500) = Inr (JStr ''https://upload.example/session'') \<and>
   upload_session ((world_reject 1 500)\<lparr>direct_answer := None\<rparr>) =
     Inr (JStr ''https://upload.example/session'') \<and>
   chunk_puts (fst (upload_large_file_cs CHUNK_SIZE (world_reject 1 500) ''token 1''
                      (file_of (zero_bytes 819200)) ''root'')) =
     chunk_puts (fst (upload_large_file_cs CHUNK_SIZE
                      ((world_reject 1 500)\<lparr>direct_answer := None\<rparr>) ''token 2''
                      ((file_of (zero_bytes 819200))\<lparr>file_type := ''text/plain''\<rparr>) ''root'')) \<and>
   event_progress (fst (upload_large_file_cs CHUNK_SIZE (world_reject 1 500) ''token 1''
                      (file_of (zero_bytes 819200)) ''root'')) =
     event_progress (fst (upload_large_file_cs CHUNK_SIZE
                      ((world_reject 1 500)\<lparr>direct_answer := None\<rparr>) ''token 2''
                      ((file_of (zero_bytes 819200))\<lparr>file_type := ''text/plain''\<rparr>) ''root''))"
proof -
  have g: "getvalue (file_of (zero_bytes 819200)) =
     getvalue ((file_of (zero_bytes 819200))\<lparr>file_type := ''text/plain''\<rparr>)"
    by simp
  have u: "upload_session ((world_reject 1 500)\<lparr>direct_answer := None\<rparr>) =
     Inr (JStr ''https://upload.example/session'')"
    by (simp add: upload_session_def world_reject_def world_ok_def session_created_def)
  have s: "\<forall>i. map_option status_code (chunk_answer (world_reject 1 500) i) =
              map_option status_code
                (chunk_answer ((world_reject 1 500)\<lparr>direct_answer := None\<rparr>) i)"
    by simp
  from driver_deterministic [OF g upload_session_world_reject u s,
         of CHUNK_SIZE "''token 1''" "''root''" "''token 2''" "''root''"]
    g upload_session_world_reject [of 1 500] u
  show ?thesis by simp
qed

section \<open>Creating the upload session\<close>


lemma getitem_Inl:
  "getitem j k = Inl e \<Longrightarrow> e = KeyError \<or> e = TypeError"
  by (cases j) (auto split: option.splits)


lemma upload_session_errors:
  "upload_session w = Inl e \<Longrightarrow>
     e = RequestException \<or> e = JSONDecodeError \<or> e = KeyError \<or> e = TypeError"
  by (auto simp: upload_session_def split: option.splits dest: getitem_Inl)

lemma driver_session_failed:
  "upload_session w = Inl e \<Longrightarrow>
   upload_large_file_cs cs w tok f folder = ([Request (session_request tok f folder)], Raised e)"
  by (simp add: upload_large_file_cs_def)

lemma driver_session_posts:
  "session_posts (fst (upload_large_file_cs cs w tok f folder)) = [session_request tok f folder]"
proof (cases "upload_session w")
  case (Inl e)
  then show ?thesis
    by (simp add: driver_session_failed session_posts_def session_request_def)
next
  case (Inr u)
  show ?thesis
  proof (cases "cs = 0")
    case True
    with Inr show ?thesis
      by (simp add: upload_large_file_cs_def session_posts_def session_request_def)
  next
    case False
    then have "0 < cs" by simp
    from driver_requests [OF Inr this, of f tok folder]
    obtain m where "event_requests (fst (upload_large_file_cs cs w tok f folder)) =
        session_request tok f folder # map (chunk_request u (getvalue f) cs) [0..<m]"
      by blast
    then show ?thesis by (rule session_posts_of_requests)
  qed
qed




section \<open>The upload block\<close>

lemma finish_upload_requests: "event_requests (fst (finish_upload res)) = event_requests (fst res)"
  by (simp add: finish_upload_def event_requests_append split: outcome.splits option.splits)

lemma finish_upload_unbound:
  "snd (finish_upload res) = Raised UnboundLocalError \<Longrightarrow> snd res = Raised UnboundLocalError"
  by (simp add: finish_upload_def split: outcome.splits option.splits if_splits)

lemma simple_upload_requests:
  "event_requests (fst (simple_upload w tok f folder)) =
     [\<lparr>req_method = PUT,
       req_url = JStr (if folder = ''root''
                       then ''https://graph.microsoft.com/v1.0/me/drive/root:/'' @ file_name f
                              @ '':/content''
                       else ''https://graph.microsoft.com/v1.0/me/drive/items/'' @ folder @ '':/''
                              @ file_name f @ '':/content''),
       req_headers = [(''Authorization'', ''Bearer '' @ tok), (''Content-Type'', file_type f)],
       req_payload = Data (getvalue f)\<rparr>]"
  by (simp add: simple_upload_def graph_headers_def Let_def split: option.splits)

lemma simple_upload_outcome:
  "snd (simple_upload w tok f folder) \<noteq> Raised UnboundLocalError"
  by (simp add: simple_upload_def Let_def split: option.splits)

lemma driver_never_unbound:
  assumes "0 < total_chunks (length (getvalue f)) cs"
  shows "snd (upload_large_file_cs cs w tok f folder) \<noteq> Raised UnboundLocalError"
proof (cases "upload_session w")
  case (Inl e)
  from upload_session_errors [OF Inl] have "e \<noteq> UnboundLocalError" by auto
  then show ?thesis by (simp add: driver_session_failed [OF Inl])
next
  case (Inr u)
  let ?n = "total_chunks (length (getvalue f)) cs"
  show ?thesis
  proof (cases "cs = 0")
    case True
    with Inr show ?thesis by (simp add: upload_large_file_cs_def)
  next
    case False
    then have cs: "0 < cs" by simp
    show ?thesis
    proof (cases "\<forall>j<?n. chunk_accepted w j")
      case True
      with assms have "chunk_accepted w (?n - 1)" by simp
      then obtain r where "chunk_answer w (?n - 1) = Some r"
        using chunk_body_accepted by blast
      then show ?thesis
        using assms by (simp add: driver_accepted [OF Inr cs True] final_outcome_def)
    next
      case False
      then obtain k where k: "k < ?n" "\<not> chunk_accepted w k" "\<forall>j<k. chunk_accepted w j"
        by (rule first_rejected)
      from driver_view_rejected(3) [OF Inr cs k(1) k(3) k(2), of tok folder]
      show ?thesis by auto
    qed
  qed
qed

text \<open>
  Claim C9. For an uploaded file whose \<^verbatim>\<open>.size\<close> is the length of its bytes, the upload
  block calls the chunked driver (seen in the trace as a session-creation request) only
  when the file has more than \<open>4 * 1024 * 1024\<close> bytes; the number of chunks is then at
  least 1, and the block never ends with the \<^verbatim>\<open>UnboundLocalError\<close> of the driver's
  \<^verbatim>\<open>return r\<close>, whatever the service answers.
\<close>

theorem driver_reached_only_large:
  assumes "wf_file f"
  shows "(session_posts (fst (upload_block w tok (Some f) clicked folder)) \<noteq> [] \<longrightarrow>
            4 * 1024 * 1024 < length (getvalue f) \<and>
            1 \<le> total_chunks (length (getvalue f)) CHUNK_SIZE) \<and>
         snd (upload_block w tok (Some f) clicked folder) \<noteq> Raised UnboundLocalError"
proof (cases "clicked \<and> 4 * 1024 * 1024 < file_size f")
  case False
  then have "session_posts (fst (upload_block w tok (Some f) clicked folder)) = []"
    by (auto simp: upload_block_def prepend_def session_posts_def finish_upload_requests
          simple_upload_requests)
  moreover have "snd (upload_block w tok (Some f) clicked folder) \<noteq> Raised UnboundLocalError"
    using False finish_upload_unbound [of "simple_upload w tok f folder"]
      simple_upload_outcome [of w tok f folder]
    by (auto simp: upload_block_def prepend_def)
  ultimately show ?thesis by simp
next
  case True
  with assms have big: "4 * 1024 * 1024 < length (getvalue f)"
    by (simp add: wf_file_def)
  then have "0 < length (getvalue f)" by linarith
  with CHUNK_SIZE_pos have n: "0 < total_chunks (length (getvalue f)) CHUNK_SIZE"
    by (rule total_chunks_pos)
  have "snd (upload_large_file w tok f folder) \<noteq> Raised UnboundLocalError"
    unfolding upload_large_file_def using n by (rule driver_never_unbound)
  then have "snd (upload_block w tok (Some f) clicked folder) \<noteq> Raised UnboundLocalError"
    using True finish_upload_unbound [of "upload_large_file w tok f folder"]
    by (auto simp: upload_block_def prepend_def)
  with big n show ?thesis by simp
qed

lemma upload_block_direct:
  assumes "file_size f \<le> 4 * 1024 * 1024"
  shows "upload_block w tok (Some f) True folder =
           prepend [StInfoSize (file_size f)] (finish_upload (simple_upload w tok f folder))"
    and "event_requests (fst (upload_block w tok (Some f) True folder)) =
           event_requests (fst (simple_upload w tok f folder))"
  using assms by (simp_all add: upload_block_def prepend_def finish_upload_requests)

lemma upload_block_chunked:
  assumes "4 * 1024 * 1024 < file_size f"
  shows "upload_block w tok (Some f) True folder =
           prepend [StInfoSize (file_size f)] (finish_upload (upload_large_file w tok f folder))"
    and "session_posts (fst (upload_block w tok (Some f) True folder)) =
           [session_request tok f folder]"
proof -
  from assms have "\<not> file_size f \<le> 4 * 1024 * 1024" by simp
  then show "upload_block w tok (Some f) True folder =
           prepend [StInfoSize (file_size f)] (finish_upload (upload_large_file w tok f folder))"
    by (simp add: upload_block_def)
  then show "session_posts (fst (upload_block w tok (Some f) True folder)) =
           [session_request tok f folder]"
    using driver_session_posts [of CHUNK_SIZE w tok f folder]
    by (simp add: prepend_def session_posts_def finish_upload_requests upload_large_file_def)
qed

lemma wf_file_of: "wf_file (file_of bs)"
  by (simp add: wf_file_def file_of_def)

lemma file_size_of: "file_size (file_of bs) = length bs"
  by (simp add: file_of_def)

theorem driver_reached_only_large_witness:
  "wf_file (file_of (zero_bytes 4194305)) \<and>
   session_posts (fst (upload_block world_ok ''t'' (Some (file_of (zero_bytes 4194305))) True
                         ''root'')) =
     [session_request ''t'' (file_of (zero_bytes 4194305)) ''root''] \<and>
   4 * 1024 * 1024 < length (getvalue (file_of (zero_bytes 4194305))) \<and>
   1 \<le> total_chunks (length (getvalue (file_of (zero_bytes 4194305)))) CHUNK_SIZE \<and>
   snd (upload_block world_ok ''t'' (Some (file_of (zero_bytes 4194305))) True ''root'') \<noteq>
     Raised UnboundLocalError"
proof -
  let ?f = "file_of (zero_bytes 4194305)"
  have big: "4 * 1024 * 1024 < file_size ?f"
    by (simp add: file_size_of length_zero_bytes)
  note p = upload_block_chunked(2) [OF big, of world_ok "''t''" "''root''"]
  then have ne: "session_posts (fst (upload_block world_ok ''t'' (Some ?f) True ''root'')) \<noteq> []"
    by simp
  note t = driver_reached_only_large [OF wf_file_of, of world_ok "''t''" "zero_bytes 4194305"
             True "''root''"]
  from t [THEN conjunct1] ne
  have "4 * 1024 * 1024 < length (getvalue ?f) \<and>
            1 \<le> total_chunks (length (getvalue ?f)) CHUNK_SIZE"
    by (rule mp)
  with p t [THEN conjunct2] wf_file_of [of "zero_bytes 4194305"] show ?thesis
    by (intro conjI) simp_all
qed

text \<open>
  Claim C6. Once the button is pressed, the size of the file alone decides the path,
  for every service, token, folder, name and content: a file of at most
  \<open>4 * 1024 * 1024\<close> bytes goes to \<^verbatim>\<open>simple_upload\<close>, and the only request is the single
  PUT of the whole content; a larger file goes to \<^verbatim>\<open>upload_large_file\<close>, which creates
  an upload session. The boundary belongs to the direct path: the theorem after this
  one evaluates the block at \<open>4 * 1024 * 1024\<close> and at \<open>4 * 1024 * 1024 + 1\<close> bytes.
\<close>

theorem routing_by_size:
  "(file_size f \<le> 4 * 1024 * 1024 \<longrightarrow>
      upload_block w tok (Some f) True folder =
        prepend [StInfoSize (file_size f)] (finish_upload (simple_upload w tok f folder)) \<and>
      event_requests (fst (upload_block w tok (Some f) True folder)) =
        [\<lparr>req_method = PUT,
          req_url = JStr (if folder = ''root''
                          then ''https://graph.microsoft.com/v1.0/me/drive/root:/'' @ file_name f
                                 @ '':/content''
                          else ''https://graph.microsoft.com/v1.0/me/drive/items/'' @ folder
                                 @ '':/'' @ file_name f @ '':/content''),
          req_headers = [(''Authorization'', ''Bearer '' @ tok), (''Content-Type'', file_type f)],
          req_payload = Data (getvalue f)\<rparr>]) \<and>
   (4 * 1024 * 1024 < file_size f \<longrightarrow>
      upload_block w tok (Some f) True folder =
        prepend [StInfoSize (file_size f)] (finish_upload (upload_large_file w tok f folder)) \<and>
      session_posts (fst (upload_block w tok (Some f) True folder)) =
        [session_request tok f folder])"
  using upload_block_direct [of f w tok folder] upload_block_chunked [of f w tok folder]
  by (simp add: simple_upload_requests)

theorem routing_by_size_witness:
  "file_size (file_of (zero_bytes 4194304)) = 4 * 1024 * 1024 \<and>
   upload_block world_ok ''t'' (Some (file_of (zero_bytes 4194304))) True ''root'' =
     prepend [StInfoSize 4194304]
       (finish_upload (simple_upload world_ok ''t'' (file_of (zero_bytes 4194304)) ''root'')) \<and>
   event_requests (fst (upload_block world_ok ''t'' (Some (file_of (zero_bytes 4194304))) True
                          ''root'')) =
     [\<lparr>req_method = PUT,
       req_url = JStr ''https://graph.microsoft.com/v1.0/me/drive/root:/a.bin:/content'',
       req_headers = [(''Authorization'', ''Bearer t''),
                      (''Content-Type'', ''application/octet-stream'')],
       req_payload = Data (zero_bytes 4194304)\<rparr>] \<and>
   file_size (file_of (zero_bytes 4194305)) = 4 * 1024 * 1024 + 1 \<and>
   upload_block world_ok ''t'' (Some (file_of (zero_bytes 4194305))) True ''root'' =
     prepend [StInfoSize 4194305]
       (finish_upload (upload_large_file world_ok ''t'' (file_of (zero_bytes 4194305)) ''root'')) \<and>
   session_posts (fst (upload_block world_ok ''t'' (Some (file_of (zero_bytes 4194305))) True
                         ''root'')) =
     [session_request ''t'' (file_of (zero_bytes 4194305)) ''root'']"
proof -
  let ?f = "file_of (zero_bytes 4194304)" and ?g = "file_of (zero_bytes 4194305)"
  have sf: "file_size ?f = 4194304" and sg: "file_size ?g = 4194305"
    by (simp_all add: file_size_of length_zero_bytes)
  have le: "file_size ?f \<le> 4 * 1024 * 1024" and gt: "4 * 1024 * 1024 < file_size ?g"
    by (simp_all add: sf sg)
  have nf: "file_name ?f = ''a.bin''" "file_type ?f = ''application/octet-stream''"
    "getvalue ?f = zero_bytes 4194304"
    by (simp_all add: file_of_def)
  from routing_by_size [of ?f world_ok "''t''" "''root''", THEN conjunct1] le
  have d: "upload_block world_ok ''t'' (Some ?f) True ''root'' =
        prepend [StInfoSize (file_size ?f)] (finish_upload (simple_upload world_ok ''t'' ?f ''root'')) \<and>
      event_requests (fst (upload_block world_ok ''t'' (Some ?f) True ''root'')) =
        [\<lparr>req_method = PUT,
          req_url = JStr (if ''root'' = ''root''
                          then ''https://graph.microsoft.com/v1.0/me/drive/root:/'' @ file_name ?f
                                 @ '':/content''
                          else ''https://graph.microsoft.com/v1.0/me/drive/items/'' @ ''root''
                                 @ '':/'' @ file_name ?f @ '':/content''),
          req_headers = [(''Authorization'', ''Bearer '' @ ''t''), (''Content-Type'', file_type ?f)],
          req_payload = Data (getvalue ?f)\<rparr>]"
    by (rule mp)
  from routing_by_size [of ?g world_ok "''t''" "''root''", THEN conjunct2] gt
  have c: "upload_block world_ok ''t'' (Some ?g) True ''root'' =
        prepend [StInfoSize (file_size ?g)] (finish_upload (upload_large_file world_ok ''t'' ?g ''root'')) \<and>
      session_posts (fst (upload_block world_ok ''t'' (Some ?g) True ''root'')) =
        [session_request ''t'' ?g ''root'']"
    by (rule mp)
  note da = d [THEN conjunct1] and db = d [THEN conjunct2]
  from da have d1: "upload_block world_ok ''t'' (Some ?f) True ''root'' =
     prepend [StInfoSize 4194304] (finish_upload (simple_upload world_ok ''t'' ?f ''root''))"
    by (simp only: sf)
  from db have d2: "event_requests (fst (upload_block world_ok ''t'' (Some ?f) True ''root'')) =
     [\<lparr>req_method = PUT,
       req_url = JStr ''https://graph.microsoft.com/v1.0/me/drive/root:/a.bin:/content'',
       req_headers = [(''Authorization'', ''Bearer t''),
                      (''Content-Type'', ''application/octet-stream'')],
       req_payload = Data (zero_bytes 4194304)\<rparr>]"
    by (simp add: nf)
  from c [THEN conjunct1] have c1: "upload_block world_ok ''t'' (Some ?g) True ''root'' =
     prepend [StInfoSize 4194305] (finish_upload (upload_large_file world_ok ''t'' ?g ''root''))"
    by (simp only: sg)
  from c have c2: "session_posts (fst (upload_block world_ok ''t'' (Some ?g) True ''root'')) =
     [session_request ''t'' ?g ''root'']"
    by (rule conjunct2)
  from sf sg d1 d2 c1 c2 show ?thesis by (intro conjI) simp_all
qed

end
